theory Spec2Isabelle
  imports Main "HOL-Library.Word"
begin

section \<open>JavaScript strings\<close>

text \<open>
  A JavaScript string is a sequence of 16-bit code units. ASCII literals of the source are
  written through \<open>js\<close>; any other code unit is written as a numeral
  (\<open>0x2713\<close> for the check mark of the badge, \<open>0xE7\<close> for c-cedilla).
\<close>

type_synonym jschar = "16 word"
type_synonym jsstring = "jschar list"

definition js :: "string \<Rightarrow> jsstring" where
  "js s = map of_char s"

text \<open>Truthiness of a string value: every string but the empty one.\<close>

definition truthy :: "jsstring \<Rightarrow> bool" where
  "truthy s \<longleftrightarrow> s \<noteq> []"

text \<open>
  \<open>String.prototype.trim\<close> strips the code units of the WhiteSpace and LineTerminator
  productions of ECMAScript from both ends.
\<close>

definition isWhiteSpace :: "jschar \<Rightarrow> bool" where
  "isWhiteSpace c \<longleftrightarrow>
     c \<in> set [0x0009, 0x000A, 0x000B, 0x000C, 0x000D, 0x0020, 0x00A0, 0x1680,
              0x2000, 0x2001, 0x2002, 0x2003, 0x2004, 0x2005, 0x2006, 0x2007,
              0x2008, 0x2009, 0x200A, 0x2028, 0x2029, 0x202F, 0x205F, 0x3000, 0xFEFF]"

text \<open>\<open>v || dflt\<close> for a string \<open>v\<close> that may be missing.\<close>

definition or_else :: "jsstring option \<Rightarrow> jsstring \<Rightarrow> jsstring" where
  "or_else v dflt = (case v of None \<Rightarrow> dflt | Some x \<Rightarrow> if truthy x then x else dflt)"

definition trim :: "jsstring \<Rightarrow> jsstring" where
  "trim s = rev (dropWhile isWhiteSpace (rev (dropWhile isWhiteSpace s)))"

definition startsWith :: "jsstring \<Rightarrow> jsstring \<Rightarrow> bool" where
  "startsWith s p \<longleftrightarrow> take (length p) s = p"

text \<open>
  \<open>str.replace(/literal/g, replacement)\<close> with a replacement string. The pattern of the
  source, \<open>/\{lang\}/g\<close>, has no capture group, so of the replacement patterns of
  GetSubstitution only \<open>$$\<close>, \<open>$`\<close>, \<open>$&\<close> and \<open>$'\<close> are special; \<open>$1\<close>,
  \<open>$<\<close> and a lone \<open>$\<close> stand for themselves. \<open>pre\<close> is the part of the subject
  before the match, \<open>post\<close> the part after it.
\<close>

fun getSubstitution :: "jsstring \<Rightarrow> jsstring \<Rightarrow> jsstring \<Rightarrow> jsstring \<Rightarrow> jsstring" where
  "getSubstitution matched pre post [] = []"
| "getSubstitution matched pre post [c] = [c]"
| "getSubstitution matched pre post (c # d # rest) =
     (if c = 0x24 \<and> d = 0x24 then 0x24 # getSubstitution matched pre post rest
      else if c = 0x24 \<and> d = 0x60 then pre @ getSubstitution matched pre post rest
      else if c = 0x24 \<and> d = 0x26 then matched @ getSubstitution matched pre post rest
      else if c = 0x24 \<and> d = 0x27 then post @ getSubstitution matched pre post rest
      else c # getSubstitution matched pre post (d # rest))"

text \<open>
  The global scan: at each position either the pattern matches, its substitution is
  emitted and the scan goes on behind the match, or one code unit is copied.
  \<open>pre\<close> is what has been scanned so far.
\<close>

fun replaceAll_from :: "jsstring \<Rightarrow> jsstring \<Rightarrow> jsstring \<Rightarrow> jsstring \<Rightarrow> jsstring" where
  "replaceAll_from pat repl pre [] = []"
| "replaceAll_from pat repl pre (c # cs) =
     (if pat \<noteq> [] \<and> take (length pat) (c # cs) = pat
      then getSubstitution pat pre (drop (length pat) (c # cs)) repl
           @ replaceAll_from pat repl (pre @ pat) (drop (length pat - 1) cs)
      else c # replaceAll_from pat repl (pre @ [c]) cs)"

definition LANG_PLACEHOLDER :: jsstring where
  "LANG_PLACEHOLDER = js ''{lang}''"

definition replaceLang :: "jsstring \<Rightarrow> jsstring \<Rightarrow> jsstring" where
  "replaceLang s nativeLanguageName = replaceAll_from LANG_PLACEHOLDER nativeLanguageName [] s"


section \<open>prepareMarkdownContent\<close>

definition prepareMarkdownContent :: "jsstring \<Rightarrow> jsstring option \<Rightarrow> jsstring" where
  "prepareMarkdownContent markdownContent title_opt =
     (case title_opt of
        None \<Rightarrow> markdownContent
      | Some t \<Rightarrow>
          if truthy t \<and> truthy (trim t)
          then js ''# '' @ t @ [0x0A, 0x0A] @ markdownContent
          else markdownContent)"

section \<open>The direct-provider task: startProcessingWithVercelAI\<close>

text \<open>
  The task object built by the \<open>shortcuts_process\<close> branch, with the fields
  \<open>startProcessingWithVercelAI\<close> destructures.
  \<open>title\<close> is always a string there (\<open>msg.payload.title || ""\<close>);
  \<open>shortcutContent\<close> may be missing (\<open>shortcutContent || ''\<close>).
\<close>

record selected_model =
  sel_provider :: jsstring
  sel_id :: jsstring

record vercel_task =
  tabId :: nat
  taskId :: jsstring
  shortcutName :: jsstring
  shortcutContent :: "jsstring option"
  content :: jsstring
  title :: jsstring
  selectedModel :: selected_model

text \<open>The messages \<open>chrome.tabs.sendMessage\<close> is called with, by their \<open>type\<close>.\<close>

datatype message =
    ShortcutsProcessingStart jsstring jsstring jsstring
      \<comment> \<open>\<open>shortcuts_processing_start\<close>: title, shortcutName, taskId\<close>
  | ShortcutsProcessData jsstring jsstring jsstring jsstring
      \<comment> \<open>\<open>shortcuts_process_data\<close>: data, accumulatedContent, title, taskId\<close>
  | ShortcutsProcessResult jsstring jsstring jsstring
      \<comment> \<open>\<open>shortcuts_process_result\<close>: content, title, taskId\<close>
  | ShortcutsProcessError jsstring jsstring jsstring
      \<comment> \<open>\<open>shortcuts_process_error\<close>: error, title, taskId\<close>

fun is_process_error :: "message \<Rightarrow> bool" where
  "is_process_error (ShortcutsProcessError e t k) = True"
| "is_process_error m = False"

record provider_config =
  enabled :: bool
  enabledModels :: "jsstring list"

text \<open>The arguments of the \<open>streamText\<close> call, the request that goes upstream.\<close>

record stream_request =
  req_provider :: jsstring
  req_modelId :: jsstring
  system :: jsstring
  prompt :: jsstring
  maxTokens :: nat

text \<open>
  Collaborators that are imported from modules outside this unit are parameters:
  \<open>getLanguageNativeName\<close> of the storage module, and \<open>createProviderModel\<close> of the
  provider module, of which only whether it returns a model or \<open>null\<close> is used.
\<close>

record deps =
  getLanguageNativeName :: "jsstring \<Rightarrow> jsstring"
  createProviderModel :: "provider_config \<Rightarrow> jsstring \<Rightarrow> bool"

text \<open>
  The function is asynchronous: it runs to its next \<open>await\<close> and is resumed by the
  outcome of what it awaits. \<open>pc\<close> is the \<open>await\<close> an activation is suspended at.
  Leaving the \<open>for await\<close> loop by \<open>break\<close> closes the iterator of the stream, which
  is awaited as well (\<open>AwaitIteratorClose\<close>).
\<close>

datatype pc =
    AwaitStorage | AwaitPrompts | AwaitStreamText | AwaitChunk | AwaitIteratorClose | Finished

text \<open>
  The value a \<open>catch\<close> receives, as far as \<open>error.message\<close> reads it: \<open>undefined\<close> or
  \<open>null\<close>, on which reading a property throws, or a value whose \<open>message\<close> reads as
  the given string (empty when it has none).
\<close>

datatype rejection = Nullish | Reason jsstring

text \<open>
  The outcomes an activation is resumed with. \<open>StreamChunk text throws\<close> is the next part
  of \<open>result.textStream\<close>; \<open>throws\<close> says whether forwarding it makes
  \<open>chrome.tabs.sendMessage\<close> throw.
\<close>

datatype outcome =
    StorageResolved "jsstring \<rightharpoonup> provider_config"
  | StorageRejected rejection
  | PromptsResolved "jsstring option"
      \<comment> \<open>\<open>promptsSettings.defaultTargetLanguage\<close>\<close>
  | PromptsRejected rejection
  | StreamTextResolved
  | StreamTextRejected rejection
  | StreamChunk jsstring bool
  | StreamEnd
  | StreamError rejection
  | IteratorClosed
  | IteratorCloseRejected rejection

text \<open>
  One activation of \<open>startProcessingWithVercelAI\<close>: its task, the \<open>aborted\<close> flag of the
  signal of its own \<open>AbortController\<close>, its local variables, the request it sent upstream
  and the calls of \<open>chrome.tabs.sendMessage\<close> it made, in order.
\<close>

record activation =
  task :: vercel_task
  aborted :: bool
  at :: pc
  modelId :: jsstring
  accumulatedContent :: jsstring
  upstream :: "stream_request option"
  sent :: "(nat \<times> message) list"

text \<open>\<open>selectedModel.id.split(':').slice(1).join(':')\<close>: what follows the first colon.\<close>

definition modelId_of :: "jsstring \<Rightarrow> jsstring" where
  "modelId_of i = tl (dropWhile (\<lambda>c. c \<noteq> 0x3A) i)"

text \<open>
  The code behind the loop: the controller is removed from the registry (the flag of the
  result) and the completion is sent only if the signal is not aborted.
\<close>

definition after_loop :: "activation \<Rightarrow> activation \<times> bool" where
  "after_loop a =
     (a\<lparr>at := Finished,
        sent := (if \<not> aborted a
                 then sent a @ [(tabId (task a),
                        ShortcutsProcessResult (accumulatedContent a) (shortcutName (task a))
                          (taskId (task a)))]
                 else sent a)\<rparr>, True)"

text \<open>
  The \<open>catch\<close> block, entered with the value caught. On \<open>undefined\<close> or \<open>null\<close> the
  payload expression \<open>error.message\<close> throws inside the inner \<open>try\<close>, before
  \<open>chrome.tabs.sendMessage\<close> is called, and nothing is sent.
\<close>

definition catch_block :: "rejection \<Rightarrow> activation \<Rightarrow> activation \<times> bool" where
  "catch_block error a =
     (if aborted a then (a\<lparr>at := Finished\<rparr>, True)
      else case error of
        Nullish \<Rightarrow> (a\<lparr>at := Finished\<rparr>, True)
      | Reason e \<Rightarrow>
          (a\<lparr>at := Finished,
             sent := sent a @ [(tabId (task a),
                       ShortcutsProcessError (if truthy e then e else js ''Processing failed'')
                         (shortcutName (task a)) (taskId (task a)))]\<rparr>, True))"

text \<open>
  Resuming an activation. The result says whether
  \<open>vercelAIAbortControllers.delete(taskId)\<close> was executed. An outcome that does not
  belong to the \<open>await\<close> the activation is suspended at does not resume it.
\<close>

definition resumeVercelAI :: "deps \<Rightarrow> pc \<Rightarrow> outcome \<Rightarrow> activation \<Rightarrow> activation \<times> bool" where
  "resumeVercelAI d p oc a =
     (case p of
        AwaitStorage \<Rightarrow>
          (case oc of
             StorageResolved providers \<Rightarrow>
               (let providerType = sel_provider (selectedModel (task a)) in
                case providers providerType of
                  None \<Rightarrow>
                    catch_block
                      (Reason (js ''Provider '' @ providerType @
                               js '' is not configured or enabled'')) a
                | Some config \<Rightarrow>
                    if \<not> enabled config
                    then catch_block
                      (Reason (js ''Provider '' @ providerType @
                               js '' is not configured or enabled'')) a
                    else
                      let mid = modelId_of (sel_id (selectedModel (task a))) in
                      if \<not> createProviderModel d config mid
                      then catch_block
                             (Reason (js ''Failed to create model for '' @ providerType)) a
                      else (a\<lparr>at := AwaitPrompts, modelId := mid\<rparr>, False))
           | StorageRejected e \<Rightarrow> catch_block e a
           | _ \<Rightarrow> (a, False))
      | AwaitPrompts \<Rightarrow>
          (case oc of
             PromptsResolved lang \<Rightarrow>
               (let defaultTargetLanguage = or_else lang (js ''English'');
                    nativeLanguageName = getLanguageNativeName d defaultTargetLanguage;
                    systemPrompt =
                      replaceLang (or_else (shortcutContent (task a)) []) nativeLanguageName;
                    userPrompt =
                      prepareMarkdownContent (content (task a)) (Some (title (task a)))
                in (a\<lparr>at := AwaitStreamText,
                       accumulatedContent := [],
                       upstream := Some \<lparr>req_provider = sel_provider (selectedModel (task a)),
                                          req_modelId = modelId a,
                                          system = systemPrompt,
                                          prompt = userPrompt,
                                          maxTokens = 8000\<rparr>\<rparr>, False))
           | PromptsRejected e \<Rightarrow> catch_block e a
           | _ \<Rightarrow> (a, False))
      | AwaitStreamText \<Rightarrow>
          (case oc of
             StreamTextResolved \<Rightarrow> (a\<lparr>at := AwaitChunk\<rparr>, False)
           | StreamTextRejected e \<Rightarrow> catch_block e a
           | _ \<Rightarrow> (a, False))
      | AwaitChunk \<Rightarrow>
          (case oc of
             StreamChunk textPart throws \<Rightarrow>
               (if aborted a then (a\<lparr>at := AwaitIteratorClose\<rparr>, False)
                else
                  let acc = accumulatedContent a @ textPart;
                      a' = a\<lparr>accumulatedContent := acc,
                             sent := sent a @ [(tabId (task a),
                                       ShortcutsProcessData textPart acc (shortcutName (task a))
                                         (taskId (task a)))]\<rparr>
                  in if throws then (a'\<lparr>at := AwaitIteratorClose\<rparr>, False) else (a', False))
           | StreamEnd \<Rightarrow> after_loop a
           | StreamError e \<Rightarrow> catch_block e a
           | _ \<Rightarrow> (a, False))
      | AwaitIteratorClose \<Rightarrow>
          (case oc of
             IteratorClosed \<Rightarrow> after_loop a
           | IteratorCloseRejected e \<Rightarrow> catch_block e a
           | _ \<Rightarrow> (a, False))
      | Finished \<Rightarrow> (a, False))"

section \<open>The managed-server task manager\<close>

text \<open>
  Modelled from the spec: \<open>sseRequestManager\<close> (module \<open>sseTaskManager\<close>, which is not
  among the sources), of which the listeners call \<open>cancelTask\<close> and
  \<open>cancelTasksByTabId\<close>. After the Task Registry and the Tab Association Tracker of the
  specification: a registry from task identifiers to cancellation handles, the task
  identifiers associated with each origin, the handles whose \<open>cancel()\<close> has been
  invoked, and the number of handles created so far. \<open>cancelTask\<close> answers whether a handle existed, invokes and removes it and
  disassociates the task; \<open>cancelTasksByTabId\<close> does so for every task associated with the
  origin, clears the association set and answers the number cancelled.
\<close>

record sse_manager =
  sse_registry :: "jsstring \<rightharpoonup> nat"
  sse_association :: "nat \<Rightarrow> jsstring list"
  sse_invoked :: "nat list"
  sse_created :: nat

text \<open>
  Modelled from the spec: \<open>sseRequestManager.processContentWithShortcutStream\<close>, as far as
  the registry and the tracker go: the stream produces a new cancellation handle, which is
  registered under the task identifier, and the task is associated with its origin.
\<close>

definition processContentWithShortcutStream ::
  "jsstring \<Rightarrow> nat \<Rightarrow> sse_manager \<Rightarrow> sse_manager" where
  "processContentWithShortcutStream k origin m =
     m\<lparr>sse_registry := (sse_registry m)(k \<mapsto> sse_created m),
       sse_association := (sse_association m)(origin := sse_association m origin @ [k]),
       sse_created := sse_created m + 1\<rparr>"

text \<open>
  Modelled from the spec: \<open>sseRequestManager.cancelTask\<close>, the \<open>cancel(taskId)\<close> of the
  Task Registry followed by the \<open>disassociate(taskId)\<close> of the tracker.
\<close>

definition cancelTask :: "jsstring \<Rightarrow> sse_manager \<Rightarrow> bool \<times> sse_manager" where
  "cancelTask k m =
     (case sse_registry m k of
        None \<Rightarrow> (False, m)
      | Some h \<Rightarrow>
          (True, m\<lparr>sse_registry := (sse_registry m)(k := None),
                   sse_association := (\<lambda>origin. removeAll k (sse_association m origin)),
                   sse_invoked := sse_invoked m @ [h]\<rparr>))"

text \<open>
  Modelled from the spec: the loop of \<open>cancelAllForOrigin\<close> over the associated task
  identifiers, counting the tasks cancelled.
\<close>

fun cancelEach :: "jsstring list \<Rightarrow> nat \<times> sse_manager \<Rightarrow> nat \<times> sse_manager" where
  "cancelEach [] (n, m) = (n, m)"
| "cancelEach (k # ks) (n, m) =
     (case cancelTask k m of (cancelled, m') \<Rightarrow>
        cancelEach ks (if cancelled then n + 1 else n, m'))"

text \<open>
  Modelled from the spec: \<open>sseRequestManager.cancelTasksByTabId\<close>, the
  \<open>cancelAllForOrigin(originId)\<close> of the Tab Association Tracker.
\<close>

definition cancelTasksByTabId :: "nat \<Rightarrow> sse_manager \<Rightarrow> nat \<times> sse_manager" where
  "cancelTasksByTabId origin m =
     (case cancelEach (sse_association m origin) (0, m) of (n, m') \<Rightarrow>
        (n, m'\<lparr>sse_association := (sse_association m')(origin := [])\<rparr>))"

section \<open>The background service\<close>

text \<open>
  The module-level state: the two maps of the source, the activations of
  \<open>startProcessingWithVercelAI\<close> and the managed-server task manager. An
  \<open>AbortController\<close> is owned by the activation that created it, so it is identified
  with the index of that activation: \<open>vercelAIAbortControllers\<close> maps a task identifier to
  the activation whose signal \<open>abort()\<close> sets.
\<close>

record state =
  vercelAIAbortControllers :: "jsstring \<rightharpoonup> nat"
  badgeCache :: "nat \<rightharpoonup> jsstring"
  activations :: "activation list"
  sseRequestManager :: sse_manager

definition init :: state where
  "init = \<lparr>vercelAIAbortControllers = Map.empty,
           badgeCache = Map.empty,
           activations = [],
           sseRequestManager =
             \<lparr>sse_registry = Map.empty, sse_association = (\<lambda>origin. []), sse_invoked = [],
               sse_created = 0\<rparr>\<rparr>"

text \<open>
  \<open>startProcessingWithVercelAI\<close> up to its first \<open>await\<close>: a new controller is created
  and stored under the task identifier, and the start message is sent.
\<close>

definition startProcessingWithVercelAI :: "vercel_task \<Rightarrow> state \<Rightarrow> state" where
  "startProcessingWithVercelAI t s =
     s\<lparr>vercelAIAbortControllers :=
         (vercelAIAbortControllers s)(taskId t \<mapsto> length (activations s)),
       activations := activations s @
         [\<lparr>task = t, aborted = False, at = AwaitStorage, modelId = [],
           accumulatedContent = [], upstream = None,
           sent = [(tabId t,
                    ShortcutsProcessingStart (shortcutName t) (shortcutName t) (taskId t))]\<rparr>]\<rparr>"

text \<open>
  The \<open>shortcuts_process\<close> branch of the message listener. A task whose selected model
  has the provider \<open>huntly-server\<close> goes to the managed-server backend, which touches
  neither \<open>vercelAIAbortControllers\<close> nor any activation; every other task starts
  \<open>startProcessingWithVercelAI\<close>. Of the managed-server branch only the hand-over to
  \<open>sseRequestManager\<close> is kept: the preview handshake that may precede it and the
  messages its callbacks relay are not part of this model.
\<close>

definition isHuntlyServer :: "vercel_task \<Rightarrow> bool" where
  "isHuntlyServer t \<longleftrightarrow> sel_provider (selectedModel t) = js ''huntly-server''"

definition onShortcutsProcess :: "vercel_task \<Rightarrow> state \<Rightarrow> state" where
  "onShortcutsProcess t s =
     (if isHuntlyServer t
      then s\<lparr>sseRequestManager :=
               processContentWithShortcutStream (taskId t) (tabId t) (sseRequestManager s)\<rparr>
      else startProcessingWithVercelAI t s)"

text \<open>\<open>controller.abort()\<close> on the controller of activation \<open>h\<close>.\<close>

definition abort :: "nat \<Rightarrow> activation list \<Rightarrow> activation list" where
  "abort h as = (if h < length as then as[h := (as ! h)\<lparr>aborted := True\<rparr>] else as)"

definition cancelVercelAITask :: "jsstring \<Rightarrow> state \<Rightarrow> bool \<times> state" where
  "cancelVercelAITask k s =
     (case vercelAIAbortControllers s k of
        Some controller \<Rightarrow>
          (True, s\<lparr>activations := abort controller (activations s),
                   vercelAIAbortControllers := (vercelAIAbortControllers s)(k := None)\<rparr>)
      | None \<Rightarrow> (False, s))"

text \<open>The \<open>shortcuts_cancel\<close> branch of the message listener.\<close>

definition onShortcutsCancel :: "jsstring \<Rightarrow> state \<Rightarrow> state" where
  "onShortcutsCancel k s =
     (case cancelTask k (sseRequestManager s) of (sseCancelled, m') \<Rightarrow>
        case cancelVercelAITask k (s\<lparr>sseRequestManager := m'\<rparr>) of (vercelCancelled, s') \<Rightarrow> s')"

text \<open>The \<open>chrome.tabs.onRemoved\<close> listener.\<close>

definition onTabRemoved :: "nat \<Rightarrow> state \<Rightarrow> state" where
  "onTabRemoved tab s =
     (case cancelTasksByTabId tab (sseRequestManager s) of (cancelledCount, m') \<Rightarrow>
        s\<lparr>sseRequestManager := m', badgeCache := (badgeCache s)(tab := None)\<rparr>)"

text \<open>Activation \<open>i\<close> is resumed with an outcome.\<close>

definition resume :: "deps \<Rightarrow> nat \<Rightarrow> outcome \<Rightarrow> state \<Rightarrow> state" where
  "resume d i oc s =
     (if i < length (activations s)
      then case resumeVercelAI d (at (activations s ! i)) oc (activations s ! i) of
             (a', deleted) \<Rightarrow>
               s\<lparr>activations := (activations s)[i := a'],
                 vercelAIAbortControllers :=
                   (if deleted then (vercelAIAbortControllers s)(taskId (task a') := None)
                    else vercelAIAbortControllers s)\<rparr>
      else s)"

text \<open>
  What happens to the service: a \<open>shortcuts_process\<close> message, a \<open>shortcuts_cancel\<close>
  message, the removal of a tab, and the resumption of an activation. Between two of them
  the handlers run to completion.
\<close>

datatype event =
    ShortcutsProcess vercel_task
  | ShortcutsCancel jsstring
  | TabRemoved nat
  | Resume nat outcome

fun step :: "deps \<Rightarrow> state \<Rightarrow> event \<Rightarrow> state" where
  "step d s (ShortcutsProcess t) = onShortcutsProcess t s"
| "step d s (ShortcutsCancel k) = onShortcutsCancel k s"
| "step d s (TabRemoved tab) = onTabRemoved tab s"
| "step d s (Resume i oc) = resume d i oc s"

definition run :: "deps \<Rightarrow> state \<Rightarrow> event list \<Rightarrow> state" where
  "run d s evs = foldl (step d) s evs"

text \<open>
  A live task whose cancellation handle the registry does not hold: the activation has not
  finished, its signal is not aborted, and the registry entry of its task identifier is
  not its controller.
\<close>

definition leaked :: "state \<Rightarrow> nat \<Rightarrow> bool" where
  "leaked s i \<longleftrightarrow>
     i < length (activations s) \<and> at (activations s ! i) \<noteq> Finished \<and>
     \<not> aborted (activations s ! i) \<and>
     vercelAIAbortControllers s (taskId (task (activations s ! i))) \<noteq> Some i"

section \<open>The badge: updateBadgeForTab\<close>

text \<open>
  What the function awaits is given with the call: the outcome of \<open>getApiBaseUrl()\<close>
  and the outcome of \<open>getPageOperateResult(0, url)\<close>. Of the response only what the
  function inspects is kept: whether it is falsy, whether \<open>JSON.parse\<close> throws on it,
  and the \<open>id\<close> of the parsed page when it has one.
\<close>

datatype 'a settled = Fulfilled 'a | Rejected

datatype page_response = NoResult | Unparseable | PageData "int option"

record badge_env =
  apiBaseUrl :: "jsstring settled"
  pageOperateResult :: "page_response settled"

text \<open>
  The calls the function makes, in order: the two badge setters and the remote lookup
  \<open>getPageOperateResult\<close>.
\<close>

datatype effect =
    SetBadgeText jsstring nat
  | SetBadgeBackgroundColor jsstring nat
  | GetPageOperateResult nat jsstring

fun is_lookup :: "effect \<Rightarrow> bool" where
  "is_lookup (GetPageOperateResult n u) = True"
| "is_lookup e = False"

definition SAVED_BADGE_TEXT :: jsstring where
  "SAVED_BADGE_TEXT = [0x2713]"

definition SAVED_BADGE_BG :: jsstring where
  "SAVED_BADGE_BG = js ''#15803D''"

text \<open>The test of the first guard: the URL is not empty and starts with one of the schemes.\<close>

definition is_http :: "jsstring \<Rightarrow> bool" where
  "is_http url \<longleftrightarrow>
     truthy url \<and> (startsWith url (js ''http://'') \<or> startsWith url (js ''https://''))"

text \<open>
  The cache is read and written in one piece of synchronous code, between the two
  \<open>await\<close>s, so a call is one transformation of the cache. The result is the cache after
  the call and the calls made.
\<close>

definition updateBadgeForTab ::
  "badge_env \<Rightarrow> nat \<Rightarrow> jsstring \<Rightarrow> bool \<Rightarrow> (nat \<rightharpoonup> jsstring) \<Rightarrow> (nat \<rightharpoonup> jsstring) \<times> effect list"
where
  "updateBadgeForTab env tab url forceRefresh cache =
     (if \<not> is_http url then (cache, [SetBadgeText [] tab])
      else case apiBaseUrl env of
        Rejected \<Rightarrow> (cache, [SetBadgeText [] tab])
      | Fulfilled baseUrl \<Rightarrow>
          if \<not> truthy baseUrl then (cache, [SetBadgeText [] tab])
          else if \<not> forceRefresh \<and> cache tab = Some url then (cache, [])
          else
            (cache(tab \<mapsto> url),
             GetPageOperateResult 0 url #
               (case pageOperateResult env of
                  Rejected \<Rightarrow> [SetBadgeText [] tab]
                | Fulfilled NoResult \<Rightarrow> [SetBadgeText [] tab]
                | Fulfilled Unparseable \<Rightarrow> [SetBadgeText [] tab]
                | Fulfilled (PageData None) \<Rightarrow> [SetBadgeText [] tab]
                | Fulfilled (PageData (Some pid)) \<Rightarrow>
                    if pid \<noteq> 0 \<and> pid > 0
                    then [SetBadgeText SAVED_BADGE_TEXT tab,
                          SetBadgeBackgroundColor SAVED_BADGE_BG tab]
                    else [SetBadgeText [] tab])))"

text \<open>The number of remote lookups a call performs.\<close>

definition lookups :: "(nat \<rightharpoonup> jsstring) \<times> effect list \<Rightarrow> nat" where
  "lookups r = length (filter is_lookup (snd r))"

section \<open>The model list of getAIToolbarData\<close>

record ModelItem =
  model_id :: jsstring
  name :: jsstring
  provider :: jsstring
  providerName :: jsstring

text \<open>An entry of \<open>PROVIDER_REGISTRY\<close>; a default model is its \<open>id\<close> and its \<open>name\<close>.\<close>

record provider_meta =
  displayName :: jsstring
  defaultModels :: "(jsstring \<times> jsstring) list"

text \<open>
  What the function reads from its collaborators, once they have answered: the base URL,
  the flag of the prompt settings, the provider storage, the available provider types,
  the provider registry and the effective default provider type (\<open>null\<close> is \<open>None\<close>).
\<close>

record toolbar_env =
  baseUrl :: jsstring
  huntlyShortcutsEnabled :: bool
  providers :: "jsstring \<rightharpoonup> provider_config"
  availableProviders :: "jsstring list"
  PROVIDER_REGISTRY :: "jsstring \<rightharpoonup> provider_meta"
  effectiveDefaultProviderType :: "jsstring option"

datatype toolbar_error = TypeError

definition huntly_model :: ModelItem where
  "huntly_model = \<lparr>model_id = js ''huntly-server:default'', name = js ''Huntly AI'',
                    provider = js ''huntly-server'', providerName = js ''Huntly''\<rparr>"

text \<open>The inner loop: one item for each enabled model of a provider.\<close>

definition provider_items :: "jsstring \<Rightarrow> provider_config \<Rightarrow> provider_meta \<Rightarrow> ModelItem list" where
  "provider_items providerType config providerMeta =
     map (\<lambda>mid.
            \<lparr>model_id = providerType @ js '':'' @ mid,
             name = (case find (\<lambda>m. fst m = mid) (defaultModels providerMeta) of
                       Some modelMeta \<Rightarrow> if truthy (snd modelMeta) then snd modelMeta else mid
                     | None \<Rightarrow> mid),
             provider = providerType,
             providerName = displayName providerMeta\<rparr>)
         (enabledModels config)"

text \<open>
  The outer loop over \<open>availableProviders\<close>. A provider with enabled models and no entry
  in the registry makes \<open>providerMeta.defaultModels\<close> throw.
\<close>

fun add_providers ::
  "toolbar_env \<Rightarrow> jsstring list \<Rightarrow> ModelItem list \<Rightarrow> toolbar_error + ModelItem list" where
  "add_providers env [] modelList = Inr modelList"
| "add_providers env (providerType # rest) modelList =
     (if providerType = js ''huntly-server'' then add_providers env rest modelList
      else case providers env providerType of
        None \<Rightarrow> add_providers env rest modelList
      | Some config \<Rightarrow>
          if enabled config \<and> length (enabledModels config) > 0
          then (case PROVIDER_REGISTRY env providerType of
                  None \<Rightarrow> Inl TypeError
                | Some providerMeta \<Rightarrow>
                    add_providers env rest
                      (modelList @ provider_items providerType config providerMeta))
          else add_providers env rest modelList)"

definition aggregate_models :: "toolbar_env \<Rightarrow> toolbar_error + ModelItem list" where
  "aggregate_models env =
     add_providers env (availableProviders env)
       (if truthy (baseUrl env) \<and> huntlyShortcutsEnabled env then [huntly_model] else [])"

text \<open>
  The scenario of the specification: provider P1 (\<open>openai\<close> here) is the default and
  surfaces no model, provider P2 (\<open>anthropic\<close>) surfaces two.
\<close>

definition scenario_P1_P2 :: toolbar_env where
  "scenario_P1_P2 =
     \<lparr>baseUrl = [], huntlyShortcutsEnabled = False,
      providers =
        [js ''openai'' \<mapsto> \<lparr>enabled = True, enabledModels = []\<rparr>,
         js ''anthropic'' \<mapsto> \<lparr>enabled = True, enabledModels = [js ''m1'', js ''m2'']\<rparr>],
      availableProviders = [js ''openai'', js ''anthropic''],
      PROVIDER_REGISTRY =
        [js ''openai'' \<mapsto> \<lparr>displayName = js ''OpenAI'', defaultModels = []\<rparr>,
         js ''anthropic'' \<mapsto>
           \<lparr>displayName = js ''Anthropic'', defaultModels = [(js ''m1'', js ''Model One'')]\<rparr>],
      effectiveDefaultProviderType = Some (js ''openai'')\<rparr>"

text \<open>\<open>Determine default model\<close>.\<close>

definition resolve_default :: "jsstring option \<Rightarrow> ModelItem list \<Rightarrow> ModelItem option" where
  "resolve_default defaultProviderType modelList =
     (case modelList of
        [] \<Rightarrow> None
      | first # _ \<Rightarrow>
          (case defaultProviderType of
             None \<Rightarrow> Some first
           | Some p \<Rightarrow>
               if truthy p
               then (case find (\<lambda>m. provider m = p) modelList of
                       Some m \<Rightarrow> Some m
                     | None \<Rightarrow> Some first)
               else Some first))"

text \<open>The \<open>externalModels\<close> of the result: \<open>models\<close> and \<open>defaultModel\<close>.\<close>

definition externalModels :: "toolbar_env \<Rightarrow> toolbar_error + ModelItem list \<times> ModelItem option" where
  "externalModels env =
     (case aggregate_models env of
        Inl e \<Rightarrow> Inl e
      | Inr modelList \<Rightarrow>
          Inr (modelList, resolve_default (effectiveDefaultProviderType env) modelList))"

section \<open>The scenarios of the specification\<close>

text \<open>
  A direct-provider task with content \<open>body\<close>, title \<open>My Title\<close> and the instruction
  \<open>Translate to {lang}\<close>, started from tab 7 under the task identifier \<open>t1\<close>; a
  language table in which the native name of \<open>fr\<close> is \<open>Fran\<close>, c-cedilla, \<open>ais\<close>
  and every other language name stands for itself; and
  a provider storage in which the provider of the task is enabled.
\<close>

definition scenario_task :: vercel_task where
  "scenario_task =
     \<lparr>tabId = 7, taskId = js ''t1'', shortcutName = js ''Translate'',
      shortcutContent = Some (js ''Translate to {lang}''), content = js ''body'',
      title = js ''My Title'',
      selectedModel = \<lparr>sel_provider = js ''openai'', sel_id = js ''openai:gpt-4o''\<rparr>\<rparr>"

definition scenario_deps :: deps where
  "scenario_deps =
     \<lparr>getLanguageNativeName =
        (\<lambda>l. if l = js ''fr'' then js ''Fran'' @ [0xE7] @ js ''ais'' else l),
      createProviderModel = (\<lambda>config mid. True)\<rparr>"

definition scenario_providers :: "jsstring \<rightharpoonup> provider_config" where
  "scenario_providers = [js ''openai'' \<mapsto> \<lparr>enabled = True, enabledModels = [js ''gpt-4o'']\<rparr>]"

text \<open>The activation of the scenario task, suspended at \<open>await getPromptsSettings()\<close>.\<close>

definition scenario_at_prompts :: activation where
  "scenario_at_prompts =
     \<lparr>task = scenario_task, aborted = False, at = AwaitPrompts, modelId = js ''gpt-4o'',
      accumulatedContent = [], upstream = None,
      sent = [(7, ShortcutsProcessingStart (js ''Translate'') (js ''Translate'') (js ''t1''))]\<rparr>"

text \<open>
  The scenario task is started, its provider, prompt settings and stream resolve, and
  its first chunk \<open>Bon\<close> is forwarded.
\<close>

definition scenario_streaming :: "event list" where
  "scenario_streaming =
     [ShortcutsProcess scenario_task,
      Resume 0 (StorageResolved scenario_providers),
      Resume 0 (PromptsResolved None),
      Resume 0 StreamTextResolved,
      Resume 0 (StreamChunk (js ''Bon'') False)]"

section \<open>The registry and its activations\<close>

text \<open>
  What holds of the registry in every state the service reaches: an entry under a task
  identifier is the controller of an unfinished activation of a task with that
  identifier, and an activation that has sent a processing error has finished with its
  signal not aborted.
\<close>

definition registry_inv :: "state \<Rightarrow> bool" where
  "registry_inv s \<longleftrightarrow>
     (\<forall>k h. vercelAIAbortControllers s k = Some h \<longrightarrow>
        h < length (activations s) \<and> taskId (task (activations s ! h)) = k \<and>
        at (activations s ! h) \<noteq> Finished) \<and>
     (\<forall>i < length (activations s).
        (\<exists>m\<in>set (sent (activations s ! i)). is_process_error (snd m)) \<longrightarrow>
        at (activations s ! i) = Finished \<and> \<not> aborted (activations s ! i))"

text \<open>The controllers the registry holds belong to activations whose signal is not aborted.\<close>

definition live_entries :: "state \<Rightarrow> bool" where
  "live_entries s \<longleftrightarrow>
     (\<forall>k h. vercelAIAbortControllers s k = Some h \<longrightarrow> \<not> aborted (activations s ! h))"

section \<open>The presence cache\<close>

text \<open>
  C9. A presence check whose resource identifier is not an HTTP or HTTPS URL (the first
  guard of \<open>updateBadgeForTab\<close>: empty, or starting with neither scheme) short-circuits:
  it performs no remote lookup and leaves the whole cache as it was, so no entry is
  created or overwritten, whatever the collaborators would have answered and whether or
  not a refresh is forced.
\<close>

theorem non_http_short_circuits:
  assumes "\<not> is_http url"
  shows "fst (updateBadgeForTab env tab url forceRefresh cache) = cache \<and>
         lookups (updateBadgeForTab env tab url forceRefresh cache) = 0"
  using assms by (simp add: updateBadgeForTab_def lookups_def)

theorem non_http_short_circuits_witness:
  "\<not> is_http (js ''chrome://extensions/'') \<and>
   fst (updateBadgeForTab \<lparr>apiBaseUrl = Fulfilled (js ''https://huntly.example''),
                            pageOperateResult = Fulfilled (PageData (Some 5))\<rparr>
          3 (js ''chrome://extensions/'') True [3 \<mapsto> js ''https://example.com/a''])
     = [3 \<mapsto> js ''https://example.com/a''] \<and>
   lookups (updateBadgeForTab \<lparr>apiBaseUrl = Fulfilled (js ''https://huntly.example''),
                            pageOperateResult = Fulfilled (PageData (Some 5))\<rparr>
          3 (js ''chrome://extensions/'') True [3 \<mapsto> js ''https://example.com/a'']) = 0"
proof -
  have h: "\<not> is_http (js ''chrome://extensions/'')"
    by (simp add: is_http_def startsWith_def js_def truthy_def)
  show ?thesis
    using h non_http_short_circuits [OF h] by simp
qed

text \<open>
  C10. A presence check that reaches the remote-lookup branch (an HTTP(S) URL, a
  configured base URL, and a refresh forced or another URL cached for the tab) performs
  the lookup and leaves the entry \<open>tab \<mapsto> url\<close> in the cache whatever the outcome of the
  lookup, a rejection included; the next check of the same tab and URL without a forced
  refresh then performs no remote lookup, whatever the collaborators answer.
\<close>

theorem cache_kept_when_lookup_fails:
  assumes "is_http url" and "apiBaseUrl env = Fulfilled b" and "truthy b"
    and "forceRefresh \<or> cache tab \<noteq> Some url"
  shows "lookups (updateBadgeForTab env tab url forceRefresh cache) = 1 \<and>
         fst (updateBadgeForTab env tab url forceRefresh cache) tab = Some url \<and>
         lookups (updateBadgeForTab env' tab url False
                    (fst (updateBadgeForTab env tab url forceRefresh cache))) = 0"
  using assms
  by (auto simp add: updateBadgeForTab_def lookups_def
      split: settled.splits page_response.splits option.splits)

theorem cache_kept_when_lookup_fails_witness:
  "lookups (updateBadgeForTab
      \<lparr>apiBaseUrl = Fulfilled (js ''https://huntly.example''), pageOperateResult = Rejected\<rparr>
      7 (js ''https://example.com/a'') False Map.empty) = 1 \<and>
   fst (updateBadgeForTab
      \<lparr>apiBaseUrl = Fulfilled (js ''https://huntly.example''), pageOperateResult = Rejected\<rparr>
      7 (js ''https://example.com/a'') False Map.empty) 7 = Some (js ''https://example.com/a'') \<and>
   lookups (updateBadgeForTab
      \<lparr>apiBaseUrl = Fulfilled (js ''https://huntly.example''),
       pageOperateResult = Fulfilled (PageData (Some 5))\<rparr>
      7 (js ''https://example.com/a'') False
      (fst (updateBadgeForTab
         \<lparr>apiBaseUrl = Fulfilled (js ''https://huntly.example''), pageOperateResult = Rejected\<rparr>
         7 (js ''https://example.com/a'') False Map.empty))) = 0"
proof -
  let ?env = "\<lparr>apiBaseUrl = Fulfilled (js ''https://huntly.example''),
                pageOperateResult = Rejected\<rparr>"
  have a: "is_http (js ''https://example.com/a'')"
    by (simp add: is_http_def startsWith_def js_def truthy_def)
  have t: "truthy (js ''https://huntly.example'')"
    by (simp add: js_def truthy_def)
  have e: "apiBaseUrl ?env = Fulfilled (js ''https://huntly.example'')"
    by simp
  have m: "False \<or> (Map.empty :: nat \<rightharpoonup> jsstring) 7 \<noteq> Some (js ''https://example.com/a'')"
    by simp
  show ?thesis
    using cache_kept_when_lookup_fails [OF a e t m] by blast
qed

text \<open>
  C6, as stated, fails: a forced refresh of an HTTP(S) URL performs no remote lookup when
  no server base URL is configured (the second guard of \<open>updateBadgeForTab\<close>).
\<close>

theorem force_refresh_without_server:
  "lookups (updateBadgeForTab
      \<lparr>apiBaseUrl = Fulfilled [], pageOperateResult = Fulfilled (PageData (Some 5))\<rparr>
      1 (js ''https://example.com/a'') True Map.empty) = 0"
  by (simp add: updateBadgeForTab_def lookups_def truthy_def)

text \<open>
  C6, amended. A check without a forced refresh of the resource the cache holds for the
  origin performs no remote lookup. When the resource is an HTTP(S) URL and a server base
  URL is configured, a check without a forced refresh of a resource other than the cached
  one performs the remote lookup, and a check with a forced refresh performs it whatever
  the cache holds.
\<close>

theorem presence_cache:
  "(cache tab = Some url \<longrightarrow> lookups (updateBadgeForTab env tab url False cache) = 0) \<and>
   (is_http url \<and> apiBaseUrl env = Fulfilled b \<and> truthy b \<and> cache tab \<noteq> Some url \<longrightarrow>
      lookups (updateBadgeForTab env tab url False cache) = 1) \<and>
   (is_http url \<and> apiBaseUrl env = Fulfilled b \<and> truthy b \<longrightarrow>
      lookups (updateBadgeForTab env tab url True cache) = 1)"
  by (auto simp add: updateBadgeForTab_def lookups_def
      split: settled.splits page_response.splits option.splits)

theorem presence_cache_witness:
  "lookups (updateBadgeForTab
      \<lparr>apiBaseUrl = Fulfilled (js ''https://huntly.example''), pageOperateResult = Rejected\<rparr>
      1 (js ''https://example.com/a'') False [1 \<mapsto> js ''https://example.com/a'']) = 0 \<and>
   lookups (updateBadgeForTab
      \<lparr>apiBaseUrl = Fulfilled (js ''https://huntly.example''), pageOperateResult = Rejected\<rparr>
      1 (js ''https://example.com/b'') False [1 \<mapsto> js ''https://example.com/a'']) = 1 \<and>
   lookups (updateBadgeForTab
      \<lparr>apiBaseUrl = Fulfilled (js ''https://huntly.example''), pageOperateResult = Rejected\<rparr>
      1 (js ''https://example.com/a'') True [1 \<mapsto> js ''https://example.com/a'']) = 1"
proof -
  let ?env = "\<lparr>apiBaseUrl = Fulfilled (js ''https://huntly.example''),
                pageOperateResult = Rejected\<rparr>"
  let ?c = "[(1::nat) \<mapsto> js ''https://example.com/a'']"
  have a: "is_http (js ''https://example.com/a'')"
    by (simp add: is_http_def startsWith_def js_def truthy_def)
  have b: "is_http (js ''https://example.com/b'')"
    by (simp add: is_http_def startsWith_def js_def truthy_def)
  have t: "truthy (js ''https://huntly.example'')"
    by (simp add: js_def truthy_def)
  have e: "apiBaseUrl ?env = Fulfilled (js ''https://huntly.example'')"
    by simp
  have hit: "?c 1 = Some (js ''https://example.com/a'')"
    by simp
  have miss: "?c 1 \<noteq> Some (js ''https://example.com/b'')"
    by (simp add: js_def)
  show ?thesis
    using presence_cache [of ?c 1 "js ''https://example.com/a''" ?env "js ''https://huntly.example''"]
      presence_cache [of ?c 1 "js ''https://example.com/b''" ?env "js ''https://huntly.example''"]
      a b t e hit miss
    by blast
qed

section \<open>The default model\<close>

lemma find_first:
  "find P xs = Some m \<Longrightarrow> \<exists>pre post. xs = pre @ m # post \<and> P m \<and> (\<forall>x\<in>set pre. \<not> P x)"
proof (induction xs)
  case Nil
  then show ?case by simp
next
  case (Cons x xs)
  show ?case
  proof (cases "P x")
    case True
    with Cons.prems have "x = m" by simp
    with True have "x # xs = [] @ m # xs \<and> P m \<and> (\<forall>y\<in>set []. \<not> P y)" by simp
    then show ?thesis by blast
  next
    case False
    with Cons.prems have "find P xs = Some m" by simp
    from Cons.IH [OF this] obtain pre post
      where "xs = pre @ m # post" "P m" "\<forall>y\<in>set pre. \<not> P y" by blast
    with False have "x # xs = (x # pre) @ m # post \<and> P m \<and> (\<forall>y\<in>set (x # pre). \<not> P y)"
      by simp
    then show ?thesis by blast
  qed
qed

lemma find_None_iff2: "find P xs = None \<longleftrightarrow> (\<forall>x\<in>set xs. \<not> P x)"
  by (induction xs) auto

text \<open>
  C5. When \<open>getAIToolbarData\<close> returns a non-empty model list, the default model is the
  first model of the list that belongs to the effective default provider, if that
  provider is set and has a model in the list, and the first model of the list otherwise.
\<close>

theorem default_model_resolution:
  assumes "externalModels env = Inr (modelList, defaultModel)" and "modelList \<noteq> []"
  shows "(\<forall>p. effectiveDefaultProviderType env = Some p \<and> truthy p \<and>
              (\<exists>m\<in>set modelList. provider m = p) \<longrightarrow>
            (\<exists>pre m post. modelList = pre @ m # post \<and> provider m = p \<and>
               (\<forall>x\<in>set pre. provider x \<noteq> p) \<and> defaultModel = Some m)) \<and>
         (\<not> (\<exists>p. effectiveDefaultProviderType env = Some p \<and> truthy p \<and>
               (\<exists>m\<in>set modelList. provider m = p)) \<longrightarrow>
            (\<exists>first rest. modelList = first # rest \<and> defaultModel = Some first))"
proof -
  from assms(1) have d: "defaultModel = resolve_default (effectiveDefaultProviderType env) modelList"
    by (auto simp add: externalModels_def split: sum.splits)
  from assms(2) obtain first rest where l: "modelList = first # rest"
    by (cases modelList) auto
  show ?thesis
  proof (intro conjI allI impI)
    fix p
    assume h: "effectiveDefaultProviderType env = Some p \<and> truthy p \<and>
               (\<exists>m\<in>set modelList. provider m = p)"
    then have "find (\<lambda>m. provider m = p) modelList \<noteq> None"
      by (simp add: find_None_iff2)
    then obtain m where f: "find (\<lambda>m. provider m = p) modelList = Some m" by blast
    from find_first [OF f] obtain pre post
      where "modelList = pre @ m # post" "provider m = p" "\<forall>x\<in>set pre. provider x \<noteq> p"
      by blast
    moreover from h f l have "defaultModel = Some m"
      by (simp add: d resolve_default_def)
    ultimately show "\<exists>pre m post. modelList = pre @ m # post \<and> provider m = p \<and>
               (\<forall>x\<in>set pre. provider x \<noteq> p) \<and> defaultModel = Some m"
      by blast
  next
    assume n: "\<not> (\<exists>p. effectiveDefaultProviderType env = Some p \<and> truthy p \<and>
               (\<exists>m\<in>set modelList. provider m = p))"
    have "defaultModel = Some first"
    proof (cases "effectiveDefaultProviderType env")
      case None
      with l show ?thesis by (simp add: d resolve_default_def)
    next
      case (Some p)
      show ?thesis
      proof (cases "truthy p")
        case False
        with Some l show ?thesis by (simp add: d resolve_default_def)
      next
        case True
        with n Some have "\<forall>m\<in>set modelList. provider m \<noteq> p" by blast
        then have "find (\<lambda>m. provider m = p) modelList = None"
          by (simp add: find_None_iff2)
        with Some True l show ?thesis by (simp add: d resolve_default_def)
      qed
    qed
    with l show "\<exists>first rest. modelList = first # rest \<and> defaultModel = Some first"
      by blast
  qed
qed

theorem default_model_resolution_witness:
  "externalModels scenario_P1_P2 =
     Inr ([\<lparr>model_id = js ''anthropic:m1'', name = js ''Model One'',
             provider = js ''anthropic'', providerName = js ''Anthropic''\<rparr>,
           \<lparr>model_id = js ''anthropic:m2'', name = js ''m2'',
             provider = js ''anthropic'', providerName = js ''Anthropic''\<rparr>],
          Some \<lparr>model_id = js ''anthropic:m1'', name = js ''Model One'',
                provider = js ''anthropic'', providerName = js ''Anthropic''\<rparr>) \<and>
   (\<exists>first rest.
      [\<lparr>model_id = js ''anthropic:m1'', name = js ''Model One'',
         provider = js ''anthropic'', providerName = js ''Anthropic''\<rparr>,
       \<lparr>model_id = js ''anthropic:m2'', name = js ''m2'',
         provider = js ''anthropic'', providerName = js ''Anthropic''\<rparr>] = first # rest \<and>
      Some \<lparr>model_id = js ''anthropic:m1'', name = js ''Model One'',
            provider = js ''anthropic'', providerName = js ''Anthropic''\<rparr> = Some first)"
proof -
  let ?m1 = "\<lparr>model_id = js ''anthropic:m1'', name = js ''Model One'',
              provider = js ''anthropic'', providerName = js ''Anthropic''\<rparr>"
  let ?m2 = "\<lparr>model_id = js ''anthropic:m2'', name = js ''m2'',
              provider = js ''anthropic'', providerName = js ''Anthropic''\<rparr>"
  have r: "externalModels scenario_P1_P2 = Inr ([?m1, ?m2], Some ?m1)"
    by (simp add: externalModels_def aggregate_models_def scenario_P1_P2_def
        provider_items_def resolve_default_def js_def truthy_def)
  have n: "[?m1, ?m2] \<noteq> []"
    by simp
  have d: "effectiveDefaultProviderType scenario_P1_P2 = Some (js ''openai'')"
    by (simp add: scenario_P1_P2_def)
  have "\<forall>m\<in>set [?m1, ?m2]. provider m \<noteq> js ''openai''"
    by (simp add: js_def)
  with d have "\<not> (\<exists>p. effectiveDefaultProviderType scenario_P1_P2 = Some p \<and> truthy p \<and>
                  (\<exists>m\<in>set [?m1, ?m2]. provider m = p))"
    by auto
  with default_model_resolution [OF r n] r show ?thesis
    by blast
qed

section \<open>The prompt sent upstream\<close>

lemma trim_truthy:
  "truthy t \<and> truthy (trim t) \<longleftrightarrow> (\<exists>c\<in>set t. \<not> isWhiteSpace c)"
proof -
  have a: "dropWhile P xs \<noteq> [] \<longleftrightarrow> (\<exists>x\<in>set xs. \<not> P x)" for P :: "jschar \<Rightarrow> bool" and xs
    by (simp add: dropWhile_eq_Nil_conv)
  have b: "(\<exists>x\<in>set (dropWhile P xs). \<not> P x) \<longleftrightarrow> (\<exists>x\<in>set xs. \<not> P x)"
    for P :: "jschar \<Rightarrow> bool" and xs
    by (induction xs) auto
  have "truthy (trim t) \<longleftrightarrow> (\<exists>x\<in>set (rev (dropWhile isWhiteSpace t)). \<not> isWhiteSpace x)"
    unfolding truthy_def trim_def using a [of isWhiteSpace "rev (dropWhile isWhiteSpace t)"]
    by simp
  also have "\<dots> \<longleftrightarrow> (\<exists>x\<in>set t. \<not> isWhiteSpace x)"
    using b [of isWhiteSpace t] by simp
  finally show ?thesis
    by (auto simp add: truthy_def)
qed

text \<open>
  C7, as stated, fails: a title that is present but consists of white space only (here a
  single space) is not prefixed; the content goes upstream unmodified.
\<close>

theorem blank_title_not_prefixed:
  "prepareMarkdownContent (js ''body'') (Some (js '' '')) = js ''body'' \<and>
   prepareMarkdownContent (js ''body'') (Some (js '' '')) \<noteq> js ''#  '' @ [0x0A, 0x0A] @ js ''body''"
  by (simp add: prepareMarkdownContent_def trim_def truthy_def isWhiteSpace_def js_def)

text \<open>
  C7, amended. When the activation of a direct-provider task is resumed with the prompt
  settings, the request it sends upstream has as its prompt the content prefixed with
  \<open>#\<close>, a space, the title and two line feeds when the title has a code unit that is
  not white space, and the unmodified content when the title is empty or white space
  only.
\<close>

theorem user_prompt_sent_upstream:
  "\<exists>r. upstream (fst (resumeVercelAI d AwaitPrompts (PromptsResolved lang) a)) = Some r \<and>
        prompt r =
          (if \<exists>c\<in>set (title (task a)). \<not> isWhiteSpace c
           then js ''# '' @ title (task a) @ [0x0A, 0x0A] @ content (task a)
           else content (task a))"
  using trim_truthy [of "title (task a)"]
  by (simp add: resumeVercelAI_def prepareMarkdownContent_def Let_def)

theorem user_prompt_sent_upstream_witness:
  "\<exists>r. upstream (fst (resumeVercelAI scenario_deps AwaitPrompts (PromptsResolved None)
                       scenario_at_prompts)) = Some r \<and>
        prompt r = js ''# My Title'' @ [0x0A, 0x0A] @ js ''body''"
proof -
  have t: "title (task scenario_at_prompts) = js ''My Title''"
    by (simp add: scenario_at_prompts_def scenario_task_def)
  have c: "content (task scenario_at_prompts) = js ''body''"
    by (simp add: scenario_at_prompts_def scenario_task_def)
  have "\<not> isWhiteSpace 0x4D"
    by (simp add: isWhiteSpace_def)
  then have p: "\<exists>c\<in>set (js ''My Title''). \<not> isWhiteSpace c"
    by (simp add: js_def)
  show ?thesis
    using user_prompt_sent_upstream [of scenario_deps None scenario_at_prompts] p
    by (simp add: t c js_def)
qed

section \<open>The language placeholder\<close>














section \<open>Cancellation of direct-provider tasks\<close>

lemma resume_aborted:
  "aborted a \<Longrightarrow>
   sent (fst (resumeVercelAI d p oc a)) = sent a \<and> aborted (fst (resumeVercelAI d p oc a))"
  by (simp add: resumeVercelAI_def after_loop_def catch_block_def Let_def
      split: pc.splits outcome.splits option.splits rejection.splits)

lemma resume_task: "task (fst (resumeVercelAI d p oc a)) = task a"
  by (simp add: resumeVercelAI_def after_loop_def catch_block_def Let_def
      split: pc.splits outcome.splits option.splits rejection.splits)

lemma resume_aborted_eq: "aborted (fst (resumeVercelAI d p oc a)) = aborted a"
  by (simp add: resumeVercelAI_def after_loop_def catch_block_def Let_def
      split: pc.splits outcome.splits option.splits rejection.splits)

lemma step_aborted:
  assumes "i < length (activations s)" and "aborted (activations s ! i)"
  shows "i < length (activations (step d s ev)) \<and>
         aborted (activations (step d s ev) ! i) \<and>
         sent (activations (step d s ev) ! i) = sent (activations s ! i)"
proof (cases ev)
  case (ShortcutsProcess t)
  with assms show ?thesis
    by (simp add: onShortcutsProcess_def startProcessingWithVercelAI_def nth_append)
next
  case (ShortcutsCancel k)
  with assms show ?thesis
    by (auto simp add: onShortcutsCancel_def cancelVercelAITask_def abort_def nth_list_update
        split: prod.splits option.splits)
next
  case (TabRemoved tab)
  with assms show ?thesis
    by (simp add: onTabRemoved_def split: prod.splits)
next
  case (Resume j oc)
  show ?thesis
  proof (cases "j = i")
    case True
    with assms Resume resume_aborted [OF assms(2), of d "at (activations s ! i)" oc]
    show ?thesis
      by (simp add: resume_def case_prod_beta)
  next
    case False
    with assms Resume show ?thesis
      by (simp add: resume_def case_prod_beta)
  qed
qed

text \<open>
  C3. Once the abort signal of a direct-provider task is set, the task makes no further
  call of \<open>chrome.tabs.sendMessage\<close>, whatever happens to the service afterwards: a
  chunk that arrives is not forwarded, and neither the result nor the error message is
  sent.
\<close>

theorem no_callbacks_after_abort:
  assumes "i < length (activations s)" and "aborted (activations s ! i)"
  shows "sent (activations (run d s evs) ! i) = sent (activations s ! i)"
  using assms
proof (induction evs arbitrary: s)
  case Nil
  show ?case by (simp add: run_def)
next
  case (Cons ev evs)
  from step_aborted [OF Cons.prems, of d ev]
  have a: "i < length (activations (step d s ev))"
    and b: "aborted (activations (step d s ev) ! i)"
    and c: "sent (activations (step d s ev) ! i) = sent (activations s ! i)"
    by simp_all
  from Cons.IH [OF a b] c show ?case
    by (simp add: run_def)
qed


lemma run_append: "run d s (xs @ ys) = run d (run d s xs) ys"
  by (simp add: run_def)

lemma run_Cons: "run d s (ev # evs) = run d (step d s ev) evs"
  by (simp add: run_def)

lemma run_Nil: "run d s [] = s"
  by (simp add: run_def)

lemma scenario_streaming_state:
  "run scenario_deps init scenario_streaming =
     \<lparr>vercelAIAbortControllers = [js ''t1'' \<mapsto> 0],
      badgeCache = Map.empty,
      activations =
        [\<lparr>task = scenario_task, aborted = False, at = AwaitChunk, modelId = js ''gpt-4o'',
          accumulatedContent = js ''Bon'',
          upstream = Some \<lparr>req_provider = js ''openai'', req_modelId = js ''gpt-4o'',
                            system = js ''Translate to English'',
                            prompt = js ''# My Title'' @ [0x0A, 0x0A] @ js ''body'',
                            maxTokens = 8000\<rparr>,
          sent = [(7, ShortcutsProcessingStart (js ''Translate'') (js ''Translate'') (js ''t1'')),
                  (7, ShortcutsProcessData (js ''Bon'') (js ''Bon'') (js ''Translate'')
                        (js ''t1''))]\<rparr>],
      sseRequestManager =
        \<lparr>sse_registry = Map.empty, sse_association = (\<lambda>origin. []), sse_invoked = [],
               sse_created = 0\<rparr>\<rparr>"
  by (simp add: run_def init_def scenario_streaming_def scenario_task_def scenario_deps_def
      scenario_providers_def onShortcutsProcess_def isHuntlyServer_def
      startProcessingWithVercelAI_def resume_def resumeVercelAI_def
      modelId_of_def or_else_def truthy_def replaceLang_def LANG_PLACEHOLDER_def
      prepareMarkdownContent_def trim_def isWhiteSpace_def Let_def js_def)

lemma scenario_cancelled:
  "activations (run scenario_deps init (scenario_streaming @ [ShortcutsCancel (js ''t1'')])) =
     [\<lparr>task = scenario_task, aborted = True, at = AwaitChunk, modelId = js ''gpt-4o'',
       accumulatedContent = js ''Bon'',
       upstream = Some \<lparr>req_provider = js ''openai'', req_modelId = js ''gpt-4o'',
                         system = js ''Translate to English'',
                         prompt = js ''# My Title'' @ [0x0A, 0x0A] @ js ''body'',
                         maxTokens = 8000\<rparr>,
       sent = [(7, ShortcutsProcessingStart (js ''Translate'') (js ''Translate'') (js ''t1'')),
               (7, ShortcutsProcessData (js ''Bon'') (js ''Bon'') (js ''Translate'')
                     (js ''t1''))]\<rparr>]"
  by (simp add: run_append run_Cons run_Nil scenario_streaming_state onShortcutsCancel_def
      cancelTask_def cancelVercelAITask_def abort_def js_def)

theorem no_callbacks_after_abort_witness:
  "aborted (activations
      (run scenario_deps init (scenario_streaming @ [ShortcutsCancel (js ''t1'')])) ! 0) \<and>
   sent (activations
      (run scenario_deps
         (run scenario_deps init (scenario_streaming @ [ShortcutsCancel (js ''t1'')]))
         [Resume 0 (StreamChunk (js ''jour'') False), Resume 0 IteratorClosed]) ! 0) =
     [(7, ShortcutsProcessingStart (js ''Translate'') (js ''Translate'') (js ''t1'')),
      (7, ShortcutsProcessData (js ''Bon'') (js ''Bon'') (js ''Translate'') (js ''t1''))]"
proof -
  let ?s = "run scenario_deps init (scenario_streaming @ [ShortcutsCancel (js ''t1'')])"
  have l: "0 < length (activations ?s)"
    by (simp add: scenario_cancelled)
  have a: "aborted (activations ?s ! 0)"
    by (simp add: scenario_cancelled)
  from no_callbacks_after_abort [OF l a] a show ?thesis
    by (simp add: scenario_cancelled)
qed

lemma resume_finished: "at a = Finished \<Longrightarrow> resumeVercelAI d (at a) oc a = (a, False)"
  by (simp add: resumeVercelAI_def)

lemma resume_deleted_iff:
  "at a \<noteq> Finished \<Longrightarrow>
   snd (resumeVercelAI d (at a) oc a) = (at (fst (resumeVercelAI d (at a) oc a)) = Finished)"
  by (cases "at a"; cases oc)
    (simp_all add: resumeVercelAI_def after_loop_def catch_block_def Let_def
      split: option.splits rejection.splits)

lemma resume_deleted:
  "at (fst (resumeVercelAI d (at a) oc a)) = Finished \<Longrightarrow> at a \<noteq> Finished \<Longrightarrow>
   snd (resumeVercelAI d (at a) oc a)"
  by (simp add: resume_deleted_iff)

lemma resume_error:
  "\<exists>m\<in>set (sent (fst (resumeVercelAI d (at a) oc a))). is_process_error (snd m) \<Longrightarrow>
   (\<exists>m\<in>set (sent a). is_process_error (snd m)) \<or>
   at (fst (resumeVercelAI d (at a) oc a)) = Finished \<and> \<not> aborted a"
  by (cases "at a"; cases oc)
    (auto simp add: resumeVercelAI_def after_loop_def catch_block_def Let_def
      split: option.splits if_splits rejection.splits)

lemma inv_init: "registry_inv init"
  by (simp add: registry_inv_def init_def)

lemma inv_start: "registry_inv s \<Longrightarrow> registry_inv (startProcessingWithVercelAI t s)"
  unfolding registry_inv_def startProcessingWithVercelAI_def
  by (auto simp add: nth_append less_Suc_eq)

lemma inv_process: "registry_inv s \<Longrightarrow> registry_inv (onShortcutsProcess t s)"
proof (cases "isHuntlyServer t")
  case True
  assume "registry_inv s"
  with True show ?thesis
    by (simp add: onShortcutsProcess_def registry_inv_def)
next
  case False
  assume "registry_inv s"
  with False inv_start [of s t] show ?thesis
    by (simp add: onShortcutsProcess_def)
qed

lemma inv_cancel: "registry_inv s \<Longrightarrow> registry_inv (onShortcutsCancel k s)"
proof -
  assume i: "registry_inv s"
  show ?thesis
  proof (cases "vercelAIAbortControllers s k")
    case None
    with i show ?thesis
      by (simp add: registry_inv_def onShortcutsCancel_def cancelVercelAITask_def
          case_prod_beta)
  next
    case (Some h)
    from i Some have h: "h < length (activations s)" "at (activations s ! h) \<noteq> Finished"
      by (auto simp add: registry_inv_def)
    have a: "activations (onShortcutsCancel k s) =
               (activations s)[h := (activations s ! h)\<lparr>aborted := True\<rparr>]"
      using Some h by (simp add: onShortcutsCancel_def cancelVercelAITask_def abort_def
          case_prod_beta)
    have r: "vercelAIAbortControllers (onShortcutsCancel k s) =
               (vercelAIAbortControllers s)(k := None)"
      using Some by (simp add: onShortcutsCancel_def cancelVercelAITask_def case_prod_beta)
    show ?thesis
      unfolding registry_inv_def a r
      using i h
      by (auto simp add: registry_inv_def nth_list_update split: if_splits)
  qed
qed

lemma inv_tab: "registry_inv s \<Longrightarrow> registry_inv (onTabRemoved tab s)"
  by (simp add: registry_inv_def onTabRemoved_def case_prod_beta)

lemma inv_resume: "registry_inv s \<Longrightarrow> registry_inv (resume d i oc s)"
proof -
  assume inv: "registry_inv s"
  show ?thesis
  proof (cases "i < length (activations s)")
    case False
    with inv show ?thesis by (simp add: resume_def)
  next
    case True
    let ?a = "activations s ! i"
    let ?r = "resumeVercelAI d (at ?a) oc ?a"
    let ?s = "resume d i oc s"
    have as: "activations ?s = (activations s)[i := fst ?r]"
      using True by (simp add: resume_def case_prod_beta)
    have rg: "vercelAIAbortControllers ?s =
                (if snd ?r then (vercelAIAbortControllers s)(taskId (task ?a) := None)
                 else vercelAIAbortControllers s)"
      using True by (simp add: resume_def case_prod_beta resume_task)
    have p1: "h < length (activations ?s) \<and> taskId (task (activations ?s ! h)) = k \<and>
              at (activations ?s ! h) \<noteq> Finished"
      if e: "vercelAIAbortControllers ?s k = Some h" for k h
    proof -
      from e have e0: "vercelAIAbortControllers s k = Some h"
        by (simp add: rg split: if_splits)
      with inv have o: "h < length (activations s)" "taskId (task (activations s ! h)) = k"
        "at (activations s ! h) \<noteq> Finished"
        by (auto simp add: registry_inv_def)
      show ?thesis
      proof (cases "h = i")
        case False
        with o show ?thesis by (simp add: as)
      next
        case eq: True
        have "at (fst ?r) \<noteq> Finished"
        proof
          assume f: "at (fst ?r) = Finished"
          from resume_deleted [OF f] o(3) eq have "snd ?r" by simp
          with e o(2) eq show False by (simp add: rg)
        qed
        with o eq show ?thesis by (simp add: as resume_task)
      qed
    qed
    have p2: "at (activations ?s ! j) = Finished \<and> \<not> aborted (activations ?s ! j)"
      if j: "j < length (activations ?s)"
        and m: "\<exists>m\<in>set (sent (activations ?s ! j)). is_process_error (snd m)" for j
    proof (cases "j = i")
      case False
      with j m inv show ?thesis by (simp add: as registry_inv_def)
    next
      case eq: True
      with m True have m': "\<exists>m\<in>set (sent (fst ?r)). is_process_error (snd m)"
        by (simp add: as)
      from resume_error [OF m'] show ?thesis
      proof
        assume "\<exists>m\<in>set (sent ?a). is_process_error (snd m)"
        with inv True have f: "at ?a = Finished" "\<not> aborted ?a"
          by (auto simp add: registry_inv_def)
        with resume_finished [OF f(1), of d oc] eq True show ?thesis
          by (simp add: as)
      next
        assume "at (fst ?r) = Finished \<and> \<not> aborted ?a"
        with eq True show ?thesis
          by (simp add: as resume_aborted_eq)
      qed
    qed
    show ?thesis
      unfolding registry_inv_def using p1 p2 by blast
  qed
qed

lemma inv_step: "registry_inv s \<Longrightarrow> registry_inv (step d s ev)"
  by (cases ev) (simp_all add: inv_process inv_cancel inv_tab inv_resume)

lemma inv_run: "registry_inv s \<Longrightarrow> registry_inv (run d s evs)"
proof (induction evs arbitrary: s)
  case Nil
  then show ?case by (simp add: run_def)
next
  case (Cons ev evs)
  from Cons.IH [OF inv_step [OF Cons.prems, of d ev]] show ?case
    by (simp add: run_def)
qed

text \<open>
  C4. In every state the service reaches from its initial state, a direct-provider task
  whose abort signal is set has sent no processing-error message: the error message is
  sent only by a task that fails with its signal not aborted, and such a task can no
  longer be cancelled.
\<close>

theorem cancelled_task_never_reports_error:
  assumes "a \<in> set (activations (run d init evs))" and "aborted a"
  shows "\<forall>m\<in>set (sent a). \<not> is_process_error (snd m)"
proof -
  from assms(1) obtain i where i: "i < length (activations (run d init evs))"
    and a: "a = activations (run d init evs) ! i"
    by (auto simp add: in_set_conv_nth)
  from inv_run [OF inv_init, of d evs] i a assms(2) show ?thesis
    unfolding registry_inv_def by blast
qed

lemma scenario_cancelled_then_error:
  "activations (run scenario_deps init
      (scenario_streaming @
         [ShortcutsCancel (js ''t1''), Resume 0 (StreamError (Reason (js ''AbortError'')))])) =
     [\<lparr>task = scenario_task, aborted = True, at = Finished, modelId = js ''gpt-4o'',
       accumulatedContent = js ''Bon'',
       upstream = Some \<lparr>req_provider = js ''openai'', req_modelId = js ''gpt-4o'',
                         system = js ''Translate to English'',
                         prompt = js ''# My Title'' @ [0x0A, 0x0A] @ js ''body'',
                         maxTokens = 8000\<rparr>,
       sent = [(7, ShortcutsProcessingStart (js ''Translate'') (js ''Translate'') (js ''t1'')),
               (7, ShortcutsProcessData (js ''Bon'') (js ''Bon'') (js ''Translate'')
                     (js ''t1''))]\<rparr>]"
  by (simp add: run_append run_Cons run_Nil scenario_streaming_state onShortcutsCancel_def
      cancelTask_def cancelVercelAITask_def abort_def resume_def resumeVercelAI_def
      catch_block_def js_def)

theorem cancelled_task_never_reports_error_witness:
  "aborted (activations (run scenario_deps init
      (scenario_streaming @
         [ShortcutsCancel (js ''t1''), Resume 0 (StreamError (Reason (js ''AbortError'')))])) ! 0) \<and>
   at (activations (run scenario_deps init
      (scenario_streaming @
         [ShortcutsCancel (js ''t1''), Resume 0 (StreamError (Reason (js ''AbortError'')))])) ! 0)
     = Finished \<and>
   \<not> (\<exists>m\<in>set (sent (activations (run scenario_deps init
      (scenario_streaming @
         [ShortcutsCancel (js ''t1''), Resume 0 (StreamError (Reason (js ''AbortError'')))])) ! 0)).
      is_process_error (snd m))"
proof -
  let ?evs = "scenario_streaming @
         [ShortcutsCancel (js ''t1''), Resume 0 (StreamError (Reason (js ''AbortError'')))]"
  let ?a = "activations (run scenario_deps init ?evs) ! 0"
  have m: "?a \<in> set (activations (run scenario_deps init ?evs))"
    by (simp add: scenario_cancelled_then_error)
  have a: "aborted ?a"
    by (simp add: scenario_cancelled_then_error)
  have f: "at ?a = Finished"
    by (simp add: scenario_cancelled_then_error)
  from cancelled_task_never_reports_error [OF m a] a f show ?thesis
    by blast
qed

section \<open>Registering a task identifier twice\<close>

lemma unreached_step:
  assumes "h < length (activations s)" and "\<forall>k. vercelAIAbortControllers s k \<noteq> Some h"
  shows "h < length (activations (step d s ev)) \<and>
         (\<forall>k. vercelAIAbortControllers (step d s ev) k \<noteq> Some h) \<and>
         aborted (activations (step d s ev) ! h) = aborted (activations s ! h)"
proof (cases ev)
  case (ShortcutsProcess t)
  with assms show ?thesis
    by (auto simp add: onShortcutsProcess_def startProcessingWithVercelAI_def nth_append)
next
  case (ShortcutsCancel k)
  show ?thesis
  proof (cases "vercelAIAbortControllers s k")
    case None
    with assms ShortcutsCancel show ?thesis
      by (simp add: onShortcutsCancel_def cancelVercelAITask_def case_prod_beta)
  next
    case (Some h')
    with assms(2) have "h' \<noteq> h" by auto
    with assms ShortcutsCancel Some show ?thesis
      by (simp add: onShortcutsCancel_def cancelVercelAITask_def abort_def case_prod_beta)
  qed
next
  case (TabRemoved tab)
  with assms show ?thesis
    by (simp add: onTabRemoved_def case_prod_beta)
next
  case (Resume i oc)
  show ?thesis
  proof (cases "i = h")
    case True
    with assms Resume
      resume_aborted_eq [of d "at (activations s ! h)" oc "activations s ! h"]
    show ?thesis
      by (simp add: resume_def case_prod_beta)
  next
    case False
    with assms Resume show ?thesis
      by (simp add: resume_def case_prod_beta)
  qed
qed

lemma unreached_run:
  assumes "h < length (activations s)" and "\<forall>k. vercelAIAbortControllers s k \<noteq> Some h"
  shows "aborted (activations (run d s evs) ! h) = aborted (activations s ! h)"
  using assms
proof (induction evs arbitrary: s)
  case Nil
  show ?case by (simp add: run_def)
next
  case (Cons ev evs)
  from unreached_step [OF Cons.prems, of d ev]
  have a: "h < length (activations (step d s ev))"
    and b: "\<forall>k. vercelAIAbortControllers (step d s ev) k \<noteq> Some h"
    and c: "aborted (activations (step d s ev) ! h) = aborted (activations s ! h)"
    by simp_all
  from Cons.IH [OF a b] c show ?case
    by (simp add: run_def)
qed

lemma live_step:
  assumes "registry_inv s" and "live_entries s"
  shows "live_entries (step d s ev)"
proof (cases ev)
  case (ShortcutsProcess t)
  with assms show ?thesis
    unfolding live_entries_def registry_inv_def
    by (auto simp add: onShortcutsProcess_def startProcessingWithVercelAI_def nth_append)
next
  case (ShortcutsCancel k)
  show ?thesis
  proof (cases "vercelAIAbortControllers s k")
    case None
    with assms ShortcutsCancel show ?thesis
      by (simp add: live_entries_def onShortcutsCancel_def cancelVercelAITask_def
          case_prod_beta)
  next
    case (Some h)
    have a: "activations (onShortcutsCancel k s) = abort h (activations s)"
      using Some by (simp add: onShortcutsCancel_def cancelVercelAITask_def case_prod_beta)
    have r: "vercelAIAbortControllers (onShortcutsCancel k s) =
               (vercelAIAbortControllers s)(k := None)"
      using Some by (simp add: onShortcutsCancel_def cancelVercelAITask_def case_prod_beta)
    have "\<not> aborted (abort h (activations s) ! h')"
      if e: "((vercelAIAbortControllers s)(k := None)) k' = Some h'" for k' h'
    proof -
      from e have k: "k' \<noteq> k" and e0: "vercelAIAbortControllers s k' = Some h'"
        by (auto split: if_splits)
      from assms(1) e0 Some have "taskId (task (activations s ! h')) = k'"
        and "taskId (task (activations s ! h)) = k"
        by (auto simp add: registry_inv_def)
      with k have "h' \<noteq> h" by auto
      with assms(2) e0 show ?thesis
        by (simp add: abort_def live_entries_def)
    qed
    with ShortcutsCancel show ?thesis
      by (simp add: live_entries_def a r)
  qed
next
  case (TabRemoved tab)
  with assms show ?thesis
    by (simp add: live_entries_def onTabRemoved_def case_prod_beta)
next
  case (Resume i oc)
  with assms show ?thesis
    unfolding live_entries_def
    by (auto simp add: resume_def case_prod_beta nth_list_update resume_aborted_eq
        split: if_splits)
qed

lemma live_run:
  assumes "registry_inv s" and "live_entries s"
  shows "live_entries (run d s evs)"
  using assms
proof (induction evs arbitrary: s)
  case Nil
  then show ?case by (simp add: run_def)
next
  case (Cons ev evs)
  from Cons.IH [OF inv_step [OF Cons.prems(1), of d ev] live_step [OF Cons.prems, of d ev]]
  show ?case by (simp add: run_def)
qed

lemma live_init: "live_entries init"
  by (simp add: live_entries_def init_def)

text \<open>
  C2, as stated, fails: when a second direct-provider task is registered under the task
  identifier of a live one, the first task is left unfinished and not aborted while the
  registry holds the second controller under its identifier; a cancel of the identifier
  then leaves the first task not aborted and the registry without an entry.
\<close>

theorem second_registration_leaks_first_handle:
  "leaked (run scenario_deps init
             [ShortcutsProcess scenario_task,
              ShortcutsProcess (scenario_task\<lparr>content := js ''other''\<rparr>)]) 0 \<and>
   \<not> aborted (activations (run scenario_deps init
             [ShortcutsProcess scenario_task,
              ShortcutsProcess (scenario_task\<lparr>content := js ''other''\<rparr>),
              ShortcutsCancel (js ''t1'')]) ! 0) \<and>
   vercelAIAbortControllers (run scenario_deps init
             [ShortcutsProcess scenario_task,
              ShortcutsProcess (scenario_task\<lparr>content := js ''other''\<rparr>),
              ShortcutsCancel (js ''t1'')]) (js ''t1'') = None"
  by (simp add: leaked_def run_def init_def scenario_task_def onShortcutsProcess_def
      isHuntlyServer_def startProcessingWithVercelAI_def
      onShortcutsCancel_def cancelTask_def cancelVercelAITask_def abort_def js_def)

text \<open>
  C2, amended. The registry is a map, so it holds at most one entry per task identifier.
  In every state the service reaches, registering a second direct-provider task under a
  task identifier that has an entry replaces the entry by the controller of the second
  task. The first task, which is unfinished and not aborted, is left as it was, and its
  controller is dropped without being invoked: whatever happens afterwards, its signal is
  never aborted. A cancel of the identifier that follows the registration directly aborts
  the second task, leaves the first as it was and removes the entry. When instead the
  first task finishes first, it removes the entry of the second task, and a cancel of the
  identifier that follows does not abort the second task.
\<close>

theorem second_registration_replaces_entry:
  assumes "vercelAIAbortControllers (run d init evs0) (taskId t) = Some h"
    and "\<not> isHuntlyServer t"
  shows "let s = run d init evs0;
             n = length (activations s);
             s1 = step d s (ShortcutsProcess t);
             k = taskId t
         in (\<forall>h'. vercelAIAbortControllers s1 k = Some h' \<longleftrightarrow> h' = n) \<and>
            h < n \<and>
            at (activations s ! h) \<noteq> Finished \<and>
            \<not> aborted (activations s ! h) \<and>
            activations s1 ! h = activations s ! h \<and>
            (\<forall>evs. \<not> aborted (activations (run d s1 evs) ! h)) \<and>
            aborted (activations (step d s1 (ShortcutsCancel k)) ! n) \<and>
            activations (step d s1 (ShortcutsCancel k)) ! h = activations s ! h \<and>
            vercelAIAbortControllers (step d s1 (ShortcutsCancel k)) k = None \<and>
            (\<forall>oc. at (activations (step d s1 (Resume h oc)) ! h) = Finished \<longrightarrow>
               vercelAIAbortControllers (step d s1 (Resume h oc)) k = None \<and>
               \<not> aborted
                   (activations (step d (step d s1 (Resume h oc)) (ShortcutsCancel k)) ! n))"
proof -
  let ?s = "run d init evs0"
  let ?n = "length (activations ?s)"
  let ?s1 = "step d ?s (ShortcutsProcess t)"
  let ?k = "taskId t"
  let ?a = "activations ?s ! h"
  note step.simps [simp del]
  have inv: "registry_inv ?s"
    by (rule inv_run [OF inv_init])
  have live: "live_entries ?s"
    by (rule live_run [OF inv_init live_init])
  from inv assms(1) have h: "h < ?n" and tk: "taskId (task ?a) = ?k"
    and nf: "at ?a \<noteq> Finished"
    by (auto simp add: registry_inv_def)
  from live assms(1) have na: "\<not> aborted ?a"
    by (auto simp add: live_entries_def)
  have acts1: "activations ?s1 = activations ?s @
      [\<lparr>task = t, aborted = False, at = AwaitStorage, modelId = [],
        accumulatedContent = [], upstream = None,
        sent = [(tabId t, ShortcutsProcessingStart (shortcutName t) (shortcutName t) ?k)]\<rparr>]"
    using assms(2)
    by (simp add: step.simps(1) onShortcutsProcess_def startProcessingWithVercelAI_def)
  have reg1: "vercelAIAbortControllers ?s1 = (vercelAIAbortControllers ?s)(?k \<mapsto> ?n)"
    using assms(2)
    by (simp add: step.simps(1) onShortcutsProcess_def startProcessingWithVercelAI_def)
  have c1: "\<forall>h'. vercelAIAbortControllers ?s1 ?k = Some h' \<longleftrightarrow> h' = ?n"
    unfolding reg1 by auto
  have c2: "activations ?s1 ! h = ?a"
    using h by (simp add: acts1 nth_append)
  have len1: "h < length (activations ?s1)"
    using h by (simp add: acts1)
  have un: "\<forall>k'. vercelAIAbortControllers ?s1 k' \<noteq> Some h"
  proof
    fix k'
    show "vercelAIAbortControllers ?s1 k' \<noteq> Some h"
    proof (cases "k' = ?k")
      case True
      with h show ?thesis by (simp add: reg1)
    next
      case False
      show ?thesis
      proof
        assume "vercelAIAbortControllers ?s1 k' = Some h"
        with False have "vercelAIAbortControllers ?s k' = Some h"
          by (simp add: reg1)
        with inv have "taskId (task ?a) = k'"
          by (auto simp add: registry_inv_def)
        with tk False show False by simp
      qed
    qed
  qed
  have c3: "\<forall>evs. \<not> aborted (activations (run d ?s1 evs) ! h)"
    using unreached_run [OF len1 un, of d] c2 na by simp
  have cancel_acts: "activations (step d ?s1 (ShortcutsCancel ?k)) =
                       abort ?n (activations ?s1)"
    by (simp add: step.simps(2) onShortcutsCancel_def cancelVercelAITask_def
        case_prod_beta reg1)
  have c4: "aborted (activations (step d ?s1 (ShortcutsCancel ?k)) ! ?n)"
    by (simp add: cancel_acts abort_def acts1)
  have c5: "activations (step d ?s1 (ShortcutsCancel ?k)) ! h = ?a"
    using h by (simp add: cancel_acts abort_def acts1 nth_append)
  have c6: "vercelAIAbortControllers (step d ?s1 (ShortcutsCancel ?k)) ?k = None"
    by (simp add: step.simps(2) onShortcutsCancel_def cancelVercelAITask_def
        case_prod_beta reg1)
  have c7: "vercelAIAbortControllers (step d ?s1 (Resume h oc)) ?k = None \<and>
            \<not> aborted (activations (step d (step d ?s1 (Resume h oc)) (ShortcutsCancel ?k)) ! ?n)"
    if f: "at (activations (step d ?s1 (Resume h oc)) ! h) = Finished" for oc
  proof -
    let ?r = "resumeVercelAI d (at ?a) oc ?a"
    let ?s2 = "step d ?s1 (Resume h oc)"
    have acts2: "activations ?s2 = (activations ?s1)[h := fst ?r]"
      using len1 by (simp add: step.simps(4) resume_def case_prod_beta c2)
    have reg2: "vercelAIAbortControllers ?s2 =
                  (if snd ?r then (vercelAIAbortControllers ?s1)(?k := None)
                   else vercelAIAbortControllers ?s1)"
      using len1 by (simp add: step.simps(4) resume_def case_prod_beta c2 resume_task tk)
    from f have "at (fst ?r) = Finished"
      using len1 by (simp add: acts2)
    from resume_deleted [OF this nf] have "snd ?r" .
    then have none: "vercelAIAbortControllers ?s2 ?k = None"
      by (simp add: reg2)
    then have "activations (step d ?s2 (ShortcutsCancel ?k)) = activations ?s2"
      by (simp add: step.simps(2) onShortcutsCancel_def cancelVercelAITask_def
          case_prod_beta)
    moreover have "\<not> aborted (activations ?s2 ! ?n)"
      using h by (simp add: acts2 acts1)
    ultimately show ?thesis
      using none by simp
  qed
  show ?thesis
    unfolding Let_def
    using c1 h nf na c2 c3 c4 c5 c6 c7 by blast
qed

theorem second_registration_replaces_entry_witness:
  "vercelAIAbortControllers
     (step scenario_deps (run scenario_deps init [ShortcutsProcess scenario_task])
        (ShortcutsProcess (scenario_task\<lparr>content := js ''other''\<rparr>))) (js ''t1'') = Some 1 \<and>
   aborted (activations
     (step scenario_deps
        (step scenario_deps (run scenario_deps init [ShortcutsProcess scenario_task])
           (ShortcutsProcess (scenario_task\<lparr>content := js ''other''\<rparr>)))
        (ShortcutsCancel (js ''t1''))) ! 1) \<and>
   \<not> aborted (activations
     (run scenario_deps
        (step scenario_deps (run scenario_deps init [ShortcutsProcess scenario_task])
           (ShortcutsProcess (scenario_task\<lparr>content := js ''other''\<rparr>)))
        [ShortcutsCancel (js ''t1'')]) ! 0) \<and>
   vercelAIAbortControllers
     (step scenario_deps
        (step scenario_deps (run scenario_deps init [ShortcutsProcess scenario_task])
           (ShortcutsProcess (scenario_task\<lparr>content := js ''other''\<rparr>)))
        (Resume 0 (StorageRejected Nullish))) (js ''t1'') = None \<and>
   \<not> aborted (activations
     (step scenario_deps
        (step scenario_deps
           (step scenario_deps (run scenario_deps init [ShortcutsProcess scenario_task])
              (ShortcutsProcess (scenario_task\<lparr>content := js ''other''\<rparr>)))
           (Resume 0 (StorageRejected Nullish)))
        (ShortcutsCancel (js ''t1''))) ! 1)"
proof -
  let ?s = "run scenario_deps init [ShortcutsProcess scenario_task]"
  let ?t = "scenario_task\<lparr>content := js ''other''\<rparr>"
  let ?s1 = "step scenario_deps ?s (ShortcutsProcess ?t)"
  have k: "taskId ?t = js ''t1''"
    by (simp add: scenario_task_def)
  have r: "vercelAIAbortControllers ?s (taskId ?t) = Some 0"
    by (simp add: run_def init_def onShortcutsProcess_def isHuntlyServer_def
        startProcessingWithVercelAI_def scenario_task_def js_def)
  have p: "\<not> isHuntlyServer ?t"
    by (simp add: isHuntlyServer_def scenario_task_def js_def)
  have n: "length (activations ?s) = 1"
    by (simp add: run_def init_def onShortcutsProcess_def isHuntlyServer_def
        startProcessingWithVercelAI_def scenario_task_def js_def)
  have f: "at (activations (step scenario_deps ?s1 (Resume 0 (StorageRejected Nullish))) ! 0)
             = Finished"
    by (simp add: run_def init_def onShortcutsProcess_def isHuntlyServer_def
        startProcessingWithVercelAI_def scenario_task_def resume_def resumeVercelAI_def
        catch_block_def js_def)
  from second_registration_replaces_entry [OF r p] f show ?thesis
    unfolding Let_def k n by blast
qed

section \<open>Closing a tab\<close>

text \<open>
  C1 at a concrete input. The scenario task streams into tab 7 and the tab is removed:
  the listener leaves its controller registered and its signal not aborted, the task
  stays suspended at the stream, and its next chunk is forwarded to the removed tab.
\<close>

theorem tab_close_leaves_direct_task_running:
  "vercelAIAbortControllers (run scenario_deps init (scenario_streaming @ [TabRemoved 7]))
     (js ''t1'') = Some 0 \<and>
   \<not> aborted (activations (run scenario_deps init (scenario_streaming @ [TabRemoved 7])) ! 0) \<and>
   at (activations (run scenario_deps init (scenario_streaming @ [TabRemoved 7])) ! 0)
     = AwaitChunk \<and>
   sent (activations (run scenario_deps init
          (scenario_streaming @
             [TabRemoved 7, Resume 0 (StreamChunk (js ''jour'') False)])) ! 0) =
     [(7, ShortcutsProcessingStart (js ''Translate'') (js ''Translate'') (js ''t1'')),
      (7, ShortcutsProcessData (js ''Bon'') (js ''Bon'') (js ''Translate'') (js ''t1'')),
      (7, ShortcutsProcessData (js ''jour'') (js ''Bonjour'') (js ''Translate'') (js ''t1''))]"
  by (simp add: run_append run_Cons run_Nil scenario_streaming_state onTabRemoved_def
      cancelTasksByTabId_def resume_def resumeVercelAI_def Let_def scenario_task_def js_def)

end
